theory Spec2Isabelle
  imports Main "HOL-Library.AList"
begin

section \<open>Shared vocabulary\<close>

text \<open>
  Socket ids and room names are JavaScript strings. A JavaScript \<open>Set\<close> keeps its elements
  in insertion order and a \<open>Map\<close> keeps its keys in insertion order, so both are lists here:
  \<open>Set.add\<close> appends an element that is not there yet, \<open>Map.set\<close> overwrites in place or
  appends (\<open>AList.update\<close>), \<open>Map.delete\<close> is \<open>AList.delete\<close>, \<open>Map.get\<close> is \<open>map_of\<close>.
  A string is truthy in a JavaScript condition when it is not empty.
\<close>

type_synonym sid = string
type_synonym rid = string

definition truthy :: "string \<Rightarrow> bool" where
  "truthy x = (x \<noteq> [])"

definition set_add :: "'a \<Rightarrow> 'a list \<Rightarrow> 'a list" where
  "set_add x xs = (if x \<in> set xs then xs else xs @ [x])"

definition set_delete :: "'a \<Rightarrow> 'a list \<Rightarrow> 'a list" where
  "set_delete x xs = removeAll x xs"

section \<open>The relay coordinator (server/server.js)\<close>

text \<open>
  \<open>rooms\<close> is the registry \<open>Map<roomId, {users, locations}>\<close> of the source,
  \<open>socket_roomId\<close> is the property \<open>socket.roomId\<close> of each socket object (\<open>None\<close> while it
  is \<open>undefined\<close>), and \<open>adapter_rooms\<close> is the room table of the socket.io adapter, which
  \<open>socket.join\<close> writes and the \<open>to(room).emit\<close> broadcasts read. Coordinates and signal
  payloads are opaque to the coordinator: they are the type variables \<open>'v\<close> and \<open>'g\<close>.
\<close>

record 'v latlng =
  lat :: 'v
  lng :: 'v

record 'v room =
  users :: "sid list"
  locations :: "(sid \<times> 'v latlng) list"

record 'v server =
  rooms :: "rid \<rightharpoonup> 'v room"
  socket_roomId :: "sid \<rightharpoonup> rid"
  adapter_rooms :: "rid \<Rightarrow> sid set"

datatype ('v, 'g) event =
    UserJoined sid
  | RoomState "sid list" "(sid \<times> 'v \<times> 'v) list"
  | UserLeft sid
  | WebrtcSignal rid sid 'g
  | LocationUpdate rid sid 'v 'v

text \<open>An emission is one \<open>emit\<close> call: the set of sockets it is delivered to, and the event.\<close>

type_synonym ('v, 'g) emission = "sid set \<times> ('v, 'g) event"

record 'g signal_data =
  sd_roomId :: rid
  sd_from :: sid
  sd_to :: "sid option"
  sd_signal :: 'g

record 'v location_data =
  ld_roomId :: rid
  ld_lat :: 'v
  ld_lng :: 'v

definition initial :: "'v server" where
  "initial = \<lparr>rooms = Map.empty, socket_roomId = Map.empty, adapter_rooms = (\<lambda>r. {})\<rparr>"

text \<open>
  \<open>io.on('connection')\<close>: socket.io puts every new socket into the room named by its own id;
  the socket object is fresh, so its \<open>roomId\<close> property is undefined.
\<close>

definition connection :: "sid \<Rightarrow> 'v server \<Rightarrow> 'v server" where
  "connection p s =
     s\<lparr>adapter_rooms := (adapter_rooms s)(p := insert p (adapter_rooms s p))\<rparr>"

text \<open>The helper \<open>leaveRoom(socketId, roomId)\<close>: registry clean-up only, it emits nothing.\<close>

definition leaveRoom :: "sid \<Rightarrow> rid \<Rightarrow> 'v server \<Rightarrow> 'v server" where
  "leaveRoom socketId roomId s =
     (case rooms s roomId of
        None \<Rightarrow> s
      | Some room \<Rightarrow>
          (let room' = room\<lparr>users := set_delete socketId (users room),
                              locations := AList.delete socketId (locations room)\<rparr>
           in if length (users room') = 0
              then s\<lparr>rooms := (rooms s)(roomId := None)\<rparr>
              else s\<lparr>rooms := (rooms s)(roomId \<mapsto> room')\<rparr>))"

text \<open>
  The \<open>join-room\<close> handler of socket \<open>p\<close>. As socket.io documents its broadcasts,
  \<open>socket.to(roomId).emit\<close> reaches every socket of the adapter room but the sender,
  and \<open>socket.emit\<close> reaches the sender only. The handler never calls \<open>socket.leave\<close>,
  so the adapter room of a previous room keeps the socket until it disconnects.
\<close>

definition join_room :: "sid \<Rightarrow> rid \<Rightarrow> 'v server \<Rightarrow> 'v server \<times> ('v, 'g) emission list" where
  "join_room p roomId s =
     (let s1 = (case socket_roomId s p of
                  None \<Rightarrow> s
                | Some old \<Rightarrow> if truthy old then leaveRoom p old s else s);
          s2 = s1\<lparr>socket_roomId := (socket_roomId s1)(p \<mapsto> roomId),
                  adapter_rooms := (adapter_rooms s1)(roomId := insert p (adapter_rooms s1 roomId))\<rparr>;
          s3 = (if rooms s2 roomId = None
                then s2\<lparr>rooms := (rooms s2)(roomId \<mapsto> \<lparr>users = [], locations = []\<rparr>)\<rparr>
                else s2)
      in case rooms s3 roomId of
           None \<Rightarrow> (s3, [])
         | Some room \<Rightarrow>
             (let room' = room\<lparr>users := set_add p (users room)\<rparr>;
                  s4 = s3\<lparr>rooms := (rooms s3)(roomId \<mapsto> room')\<rparr>
              in (s4,
                  [(adapter_rooms s4 roomId - {p}, UserJoined p),
                   ({p}, RoomState (filter (\<lambda>id. id \<noteq> p) (users room'))
                                   (map (\<lambda>(id, loc). (id, lat loc, lng loc)) (locations room')))])))"

text \<open>
  The first statement of the handler on its own, for the proofs: the state after the
  \<open>leaveRoom\<close> of the previous room, if the socket had a truthy one.
\<close>

definition leave_previous :: "sid \<Rightarrow> 'v server \<Rightarrow> 'v server" where
  "leave_previous p s =
     (case socket_roomId s p of
        None \<Rightarrow> s
      | Some old \<Rightarrow> if truthy old then leaveRoom p old s else s)"

text \<open>
  The \<open>webrtc-signal\<close> handler. \<open>io.to(to).emit\<close> reaches every socket of the adapter room
  named \<open>to\<close> (the target's own room). The registry is never touched.
\<close>

definition webrtc_signal :: "sid \<Rightarrow> 'g signal_data \<Rightarrow> 'v server \<Rightarrow> 'v server \<times> ('v, 'g) emission list" where
  "webrtc_signal p data s =
     (if socket_roomId s p \<noteq> Some (sd_roomId data) then (s, [])
      else case sd_to data of
             Some t \<Rightarrow>
               if truthy t
               then (s, [(adapter_rooms s t, WebrtcSignal (sd_roomId data) p (sd_signal data))])
               else (s, [(adapter_rooms s (sd_roomId data) - {p},
                          WebrtcSignal (sd_roomId data) p (sd_signal data))])
           | None \<Rightarrow>
               (s, [(adapter_rooms s (sd_roomId data) - {p},
                     WebrtcSignal (sd_roomId data) p (sd_signal data))]))"

text \<open>The \<open>location-update\<close> handler.\<close>

definition location_update :: "sid \<Rightarrow> 'v location_data \<Rightarrow> 'v server \<Rightarrow> 'v server \<times> ('v, 'g) emission list" where
  "location_update p data s =
     (if socket_roomId s p \<noteq> Some (ld_roomId data) then (s, [])
      else case rooms s (ld_roomId data) of
             None \<Rightarrow> (s, [])
           | Some room \<Rightarrow>
               (s\<lparr>rooms := (rooms s)(ld_roomId data \<mapsto>
                     room\<lparr>locations := AList.update p \<lparr>lat = ld_lat data, lng = ld_lng data\<rparr>
                                            (locations room)\<rparr>)\<rparr>,
                [(adapter_rooms s (ld_roomId data) - {p},
                  LocationUpdate (ld_roomId data) p (ld_lat data) (ld_lng data))]))"

text \<open>
  The \<open>disconnect\<close> handler. socket.io takes the socket out of every adapter room before
  it fires \<open>disconnect\<close>, so the \<open>io.to(socket.roomId)\<close> broadcast reaches the sockets that
  remain in the adapter room.
\<close>

definition disconnect :: "sid \<Rightarrow> 'v server \<Rightarrow> 'v server \<times> ('v, 'g) emission list" where
  "disconnect p s =
     (let s0 = s\<lparr>adapter_rooms := (\<lambda>r. adapter_rooms s r - {p})\<rparr>
      in case socket_roomId s0 p of
           None \<Rightarrow> (s0, [])
         | Some r \<Rightarrow>
             if truthy r
             then (leaveRoom p r s0, [(adapter_rooms s0 r, UserLeft p)])
             else (s0, []))"

text \<open>
  The requests a coordinator serves, and one step of it. The states it can be in: a socket
  connects once, sends requests while it is connected, and room names are non-empty
  (the data model's \<open>Room\<close> name; the client's \<open>joinRoom\<close> refuses an empty name).
\<close>

datatype ('v, 'g) request =
    Connection sid
  | JoinRoom sid rid
  | Signal sid "'g signal_data"
  | Location sid "'v location_data"
  | Disconnect sid

fun step :: "('v, 'g) request \<Rightarrow> 'v server \<Rightarrow> 'v server \<times> ('v, 'g) emission list" where
  "step (Connection p) s = (connection p s, [])"
| "step (JoinRoom p r) s = join_room p r s"
| "step (Signal p d) s = webrtc_signal p d s"
| "step (Location p d) s = location_update p d s"
| "step (Disconnect p) s = disconnect p s"

definition connected :: "'v server \<Rightarrow> sid \<Rightarrow> bool" where
  "connected s p = (p \<in> adapter_rooms s p)"

fun admissible :: "'v server \<Rightarrow> ('v, 'g) request \<Rightarrow> bool" where
  "admissible s (Connection p) = (\<not> connected s p \<and> socket_roomId s p = None)"
| "admissible s (JoinRoom p r) = (connected s p \<and> r \<noteq> [])"
| "admissible s (Signal p d) = connected s p"
| "admissible s (Location p d) = connected s p"
| "admissible s (Disconnect p) = connected s p"

fun run :: "('v, 'g) request list \<Rightarrow> 'v server \<Rightarrow> 'v server" where
  "run [] s = s"
| "run (q # qs) s = run qs (fst (step q s))"

fun admissible_run :: "'v server \<Rightarrow> ('v, 'g) request list \<Rightarrow> bool" where
  "admissible_run s [] = True"
| "admissible_run s (q # qs) = (admissible s q \<and> admissible_run (fst (step q s)) qs)"

text \<open>
  The participants of a room, as the registry has them (none for a name with no entry), and
  the registry invariant of the data model: an entry exists exactly for the names with a
  participant.
\<close>

definition participants :: "'v server \<Rightarrow> rid \<Rightarrow> sid set" where
  "participants s r = (case rooms s r of None \<Rightarrow> {} | Some room \<Rightarrow> set (users room))"

definition registry_ok :: "'v server \<Rightarrow> bool" where
  "registry_ok s = (\<forall>r. (rooms s r \<noteq> None) = (participants s r \<noteq> {}))"

text \<open>
  What ties the registry to the adapter and to the sockets: a registered participant is in
  the adapter room of its room and its socket points at that room, a stored location
  belongs to a socket that points at that room, and no socket points at the empty name.
\<close>

definition coherent :: "'v server \<Rightarrow> bool" where
  "coherent s =
     ((\<forall>r room p. rooms s r = Some room \<longrightarrow> p \<in> set (users room) \<longrightarrow>
          p \<in> adapter_rooms s r \<and> socket_roomId s p = Some r) \<and>
      (\<forall>r room p. rooms s r = Some room \<longrightarrow> p \<in> fst ` set (locations room) \<longrightarrow>
          socket_roomId s p = Some r) \<and>
      (\<forall>p r. socket_roomId s p = Some r \<longrightarrow> r \<noteq> []))"

text \<open>
  The lists stand for a \<open>Set\<close> and a \<open>Map\<close>: no participant twice, no key twice.
\<close>

definition lists_distinct :: "'v server \<Rightarrow> bool" where
  "lists_distinct s =
     (\<forall>r room. rooms s r = Some room \<longrightarrow>
        distinct (users room) \<and> distinct (map fst (locations room)))"

text \<open>Whether a \<open>user-joined\<close> or \<open>room-state\<close> event has an entry for participant \<open>q\<close>.\<close>

fun names :: "sid \<Rightarrow> ('v, 'g) event \<Rightarrow> bool" where
  "names q (UserJoined u) = (u = q)"
| "names q (RoomState us locs) = (q \<in> set us \<or> q \<in> fst ` set locs)"
| "names q (UserLeft u) = False"
| "names q (WebrtcSignal r f g) = False"
| "names q (LocationUpdate r u a b) = False"

section \<open>The session client (client/main.js)\<close>

text \<open>
  A signal is what travels in the \<open>signal\<close> field: a session description of type
  \<open>offer\<close> or \<open>answer\<close> with its SDP text, an ICE candidate, or anything else (its
  \<open>type\<close> string), which the client ignores.
\<close>

datatype signal = Offer string | Answer string | Candidate string | OtherSignal string

text \<open>
  The browser's \<open>RTCPeerConnection\<close> is not part of the repository: the client takes it as
  a parameter, the operations the source calls on it. An operation whose promise rejects
  returns \<open>None\<close> and leaves the object as it was.
\<close>

record 'pc transport =
  rtc_new :: 'pc
  rtc_addTrack :: "'pc \<Rightarrow> 'pc"
  rtc_createOffer :: "'pc \<Rightarrow> string option"
  rtc_createAnswer :: "'pc \<Rightarrow> string option"
  rtc_setLocalDescription :: "'pc \<Rightarrow> signal \<Rightarrow> 'pc option"
  rtc_setRemoteDescription :: "'pc \<Rightarrow> signal \<Rightarrow> 'pc option"
  rtc_addIceCandidate :: "'pc \<Rightarrow> string \<Rightarrow> 'pc option"

text \<open>
  The global state of main.js that the signalling touches. \<open>socket_id\<close> is \<open>socket.id\<close>
  for the lifetime of one connection, \<open>localStream\<close> tells whether the stream is there,
  \<open>constructed\<close> counts the evaluations of \<open>new RTCPeerConnection\<close>. The video elements
  and map markers are display only and are left out, and so are the callbacks that
  \<open>createPeerConnection\<close> registers on the transport, which never write the map. Each
  handler runs to its end before the next one starts.
\<close>

record 'pc client =
  socket_id :: sid
  socket_connected :: bool
  ROOM_ID :: "rid option"
  isInRoom :: bool
  localStream :: bool
  currentRoomUsers :: "sid list"
  peerConnections :: "(sid \<times> 'pc) list"
  constructed :: nat

text \<open>What the client sends: \<open>join-room\<close> with a name, or \<open>webrtc-signal\<close> with
  \<open>roomId\<close>, \<open>from\<close>, \<open>to\<close> and \<open>signal\<close>.\<close>

datatype emit = EmitJoinRoom rid | EmitWebrtcSignal "rid option" sid sid signal

definition createPeerConnection :: "'pc transport \<Rightarrow> sid \<Rightarrow> 'pc client \<Rightarrow> 'pc client" where
  "createPeerConnection T userId c =
     (if userId = socket_id c then c
      else if map_of (peerConnections c) userId \<noteq> None then c
      else (let pc = rtc_new T;
                pc' = (if localStream c then rtc_addTrack T pc else pc)
            in c\<lparr>peerConnections := AList.update userId pc' (peerConnections c),
                 constructed := Suc (constructed c)\<rparr>))"

text \<open>The remote ids the client holds a peer connection for.\<close>

definition peer_ids :: "'pc client \<Rightarrow> sid set" where
  "peer_ids c = fst ` set (peerConnections c)"

text \<open>A transport operation changed the object that the map holds under \<open>userId\<close>.\<close>

definition store :: "sid \<Rightarrow> 'pc \<Rightarrow> 'pc client \<Rightarrow> 'pc client" where
  "store userId pc c = c\<lparr>peerConnections := AList.update userId pc (peerConnections c)\<rparr>"

definition createOffer :: "'pc transport \<Rightarrow> sid \<Rightarrow> 'pc client \<Rightarrow> 'pc client \<times> emit list" where
  "createOffer T userId c =
     (case map_of (peerConnections c) userId of
        None \<Rightarrow> (c, [])
      | Some pc \<Rightarrow>
          if \<not> localStream c then (c, [])
          else (case rtc_createOffer T pc of
                  None \<Rightarrow> (c, [])
                | Some sdp \<Rightarrow>
                    (case rtc_setLocalDescription T pc (Offer sdp) of
                       None \<Rightarrow> (c, [])
                     | Some pc' \<Rightarrow>
                         (store userId pc' c,
                          [EmitWebrtcSignal (ROOM_ID c) (socket_id c) userId (Offer sdp)]))))"

text \<open>The loop of the \<open>room-state\<close> handler over \<open>users\<close>, with its own self check.\<close>

fun room_state_loop :: "'pc transport \<Rightarrow> sid list \<Rightarrow> 'pc client \<Rightarrow> 'pc client \<times> emit list" where
  "room_state_loop T [] c = (c, [])"
| "room_state_loop T (userId # rest) c =
     (if userId \<noteq> socket_id c
      then (let c1 = createPeerConnection T userId c;
                (c2, out1) = createOffer T userId c1;
                (c3, out2) = room_state_loop T rest c2
            in (c3, out1 @ out2))
      else room_state_loop T rest c)"

definition on_room_state :: "'pc transport \<Rightarrow> sid list \<Rightarrow> 'pc client \<Rightarrow> 'pc client \<times> emit list" where
  "on_room_state T us c =
     (let c1 = c\<lparr>currentRoomUsers := set_add (socket_id c) (foldl (\<lambda>acc u. set_add u acc) [] us)\<rparr>
      in if length us > 0 \<and> localStream c1 then room_state_loop T us c1 else (c1, []))"

definition on_user_joined :: "'pc transport \<Rightarrow> sid \<Rightarrow> 'pc client \<Rightarrow> 'pc client \<times> emit list" where
  "on_user_joined T userId c =
     (let c1 = c\<lparr>currentRoomUsers := set_add userId (currentRoomUsers c)\<rparr>
      in if localStream c1 \<and> userId \<noteq> socket_id c1
         then createOffer T userId (createPeerConnection T userId c1)
         else (c1, []))"

definition on_user_left :: "sid \<Rightarrow> 'pc client \<Rightarrow> 'pc client \<times> emit list" where
  "on_user_left userId c =
     (let c1 = c\<lparr>currentRoomUsers := set_delete userId (currentRoomUsers c)\<rparr>
      in case map_of (peerConnections c1) userId of
           None \<Rightarrow> (c1, [])
         | Some pc \<Rightarrow> (c1\<lparr>peerConnections := AList.delete userId (peerConnections c1)\<rparr>, []))"

text \<open>
  The client's \<open>webrtc-signal\<close> handler. The test on \<open>localDescription\<close> in the offer
  branch only logs, so it has no counterpart here. The candidate branch catches the
  rejection of \<open>addIceCandidate\<close> and logs; the source keeps no queue.
\<close>

definition on_webrtc_signal :: "'pc transport \<Rightarrow> sid \<Rightarrow> signal \<Rightarrow> 'pc client \<Rightarrow> 'pc client \<times> emit list" where
  "on_webrtc_signal T from_id sg c =
     (let c1 = (if map_of (peerConnections c) from_id = None \<and> localStream c
                then createPeerConnection T from_id c else c)
      in case map_of (peerConnections c1) from_id of
           None \<Rightarrow> (c1, [])
         | Some pc \<Rightarrow>
             (case sg of
                Offer sdp \<Rightarrow>
                  (case rtc_setRemoteDescription T pc sg of
                     None \<Rightarrow> (c1, [])
                   | Some pc1 \<Rightarrow>
                       (case rtc_createAnswer T pc1 of
                          None \<Rightarrow> (store from_id pc1 c1, [])
                        | Some a \<Rightarrow>
                            (case rtc_setLocalDescription T pc1 (Answer a) of
                               None \<Rightarrow> (store from_id pc1 c1, [])
                             | Some pc2 \<Rightarrow>
                                 (store from_id pc2 c1,
                                  [EmitWebrtcSignal (ROOM_ID c1) (socket_id c1) from_id (Answer a)]))))
              | Answer sdp \<Rightarrow>
                  (case rtc_setRemoteDescription T pc sg of
                     None \<Rightarrow> (c1, [])
                   | Some pc1 \<Rightarrow> (store from_id pc1 c1, []))
              | Candidate cand \<Rightarrow>
                  (case rtc_addIceCandidate T pc cand of
                     None \<Rightarrow> (c1, [])
                   | Some pc1 \<Rightarrow> (store from_id pc1 c1, []))
              | OtherSignal ty \<Rightarrow> (c1, [])))"

text \<open>
  \<open>startLocalStream\<close>. The environment decides the path: the modern
  \<open>navigator.mediaDevices.getUserMedia\<close>, the callback API of older browsers, or neither;
  the flag tells whether the acquisition succeeds, and a failure on either path leaves the
  state as it is. The third component is the returned boolean. The modern path goes on to the loop over the other room members; the fallback
  path returns its promise right after storing the stream.
\<close>

datatype media_api = ModernAPI bool | LegacyAPI bool | NoAPI

fun media_ready_loop :: "'pc transport \<Rightarrow> sid list \<Rightarrow> 'pc client \<Rightarrow> 'pc client \<times> emit list" where
  "media_ready_loop T [] c = (c, [])"
| "media_ready_loop T (userId # rest) c =
     (let c1 = createPeerConnection T userId c;
          (c2, out1) = createOffer T userId c1;
          (c3, out2) = media_ready_loop T rest c2
      in (c3, out1 @ out2))"

definition startLocalStream :: "'pc transport \<Rightarrow> media_api \<Rightarrow> 'pc client \<Rightarrow> 'pc client \<times> emit list \<times> bool" where
  "startLocalStream T api c =
     (case api of
        NoAPI \<Rightarrow> (c, [], False)
      | LegacyAPI ok \<Rightarrow> if ok then (c\<lparr>localStream := True\<rparr>, [], True) else (c, [], False)
      | ModernAPI ok \<Rightarrow>
          if \<not> ok then (c, [], False)
          else (let c1 = c\<lparr>localStream := True\<rparr>
                in if isInRoom c1 \<and> length (currentRoomUsers c1) > 1
                   then (let otherUsers = filter (\<lambda>id. id \<noteq> socket_id c1) (currentRoomUsers c1);
                             (c2, out) = media_ready_loop T otherUsers c1
                         in (c2, out, True))
                   else (c1, [], True)))"

text \<open>\<open>joinRoom(roomName)\<close>, with \<open>String.prototype.trim\<close> on ASCII white space.\<close>

definition is_space :: "char \<Rightarrow> bool" where
  "is_space ch = (ch \<in> set [CHR '' '', CHR 0x09, CHR 0x0A, CHR 0x0B, CHR 0x0C, CHR 0x0D])"

definition trim :: "string \<Rightarrow> string" where
  "trim x = rev (dropWhile is_space (rev (dropWhile is_space x)))"

definition joinRoom :: "string \<Rightarrow> 'pc client \<Rightarrow> 'pc client \<times> emit list" where
  "joinRoom roomName c =
     (if \<not> socket_connected c then (c, [])
      else if \<not> truthy roomName \<or> trim roomName = [] then (c, [])
      else (let trimmedRoomName = trim roomName;
                c1 = (if isInRoom c \<and> (case ROOM_ID c of None \<Rightarrow> False | Some r \<Rightarrow> truthy r)
                      then c\<lparr>peerConnections := [], currentRoomUsers := []\<rparr>
                      else c);
                c2 = c1\<lparr>ROOM_ID := Some trimmedRoomName, isInRoom := True\<rparr>
            in (c2, [EmitJoinRoom trimmedRoomName])))"

text \<open>What happens to a client, and one step of it.\<close>

datatype client_event =
    GotRoomState "sid list"
  | GotUserJoined sid
  | GotUserLeft sid
  | GotSignal sid signal
  | StartCall media_api
  | JoinClick string

fun client_step :: "'pc transport \<Rightarrow> client_event \<Rightarrow> 'pc client \<Rightarrow> 'pc client \<times> emit list" where
  "client_step T (GotRoomState us) c = on_room_state T us c"
| "client_step T (GotUserJoined u) c = on_user_joined T u c"
| "client_step T (GotUserLeft u) c = on_user_left u c"
| "client_step T (GotSignal f sg) c = on_webrtc_signal T f sg c"
| "client_step T (StartCall api) c =
     (if \<not> isInRoom c then (c, [])
      else (case startLocalStream T api c of (c', out, ok) \<Rightarrow> (c', out)))"
| "client_step T (JoinClick name) c = joinRoom name c"

fun client_run :: "'pc transport \<Rightarrow> client_event list \<Rightarrow> 'pc client \<Rightarrow> 'pc client" where
  "client_run T [] c = c"
| "client_run T (e # es) c = client_run T es (fst (client_step T e c))"

definition fresh_client :: "sid \<Rightarrow> 'pc client" where
  "fresh_client me =
     \<lparr>socket_id = me, socket_connected = True, ROOM_ID = None, isInRoom = False,
      localStream = False, currentRoomUsers = [], peerConnections = [], constructed = 0\<rparr>"

text \<open>
  One transport to run the client on: it records the descriptions and the candidates it
  was given, and, as a browser does, it rejects a candidate while it has no remote
  description and an answer while it has no remote offer.
\<close>

record rtc =
  localDescription :: "signal option"
  remoteDescription :: "signal option"
  iceCandidates :: "string list"
  tracks :: bool

definition browser :: "rtc transport" where
  "browser =
     \<lparr>rtc_new = \<lparr>localDescription = None, remoteDescription = None, iceCandidates = [], tracks = False\<rparr>,
      rtc_addTrack = (\<lambda>pc. pc\<lparr>tracks := True\<rparr>),
      rtc_createOffer = (\<lambda>pc. Some ''offer-sdp''),
      rtc_createAnswer = (\<lambda>pc. case remoteDescription pc of
                                    Some (Offer sdp) \<Rightarrow> Some ''answer-sdp''
                                  | _ \<Rightarrow> None),
      rtc_setLocalDescription = (\<lambda>pc d. Some (pc\<lparr>localDescription := Some d\<rparr>)),
      rtc_setRemoteDescription = (\<lambda>pc d. Some (pc\<lparr>remoteDescription := Some d\<rparr>)),
      rtc_addIceCandidate = (\<lambda>pc cand. if remoteDescription pc = None then None
                                          else Some (pc\<lparr>iceCandidates := iceCandidates pc @ [cand]\<rparr>))\<rparr>"

section \<open>Properties of the relay coordinator\<close>

subsection \<open>Sets, the helper, and the join handler in normal form\<close>

lemma set_delete_Nil_iff: "(set_delete p xs = []) = (set xs \<subseteq> {p})"
  by (induction xs) (auto simp: set_delete_def)

lemma set_set_delete: "set (set_delete p xs) = set xs - {p}"
  by (simp add: set_delete_def)

lemma set_set_add: "set (set_add p xs) = insert p (set xs)"
  by (auto simp: set_add_def)

lemma registry_ok_iff:
  "registry_ok s = (\<forall>r room. rooms s r = Some room \<longrightarrow> users room \<noteq> [])"
  by (auto simp: registry_ok_def participants_def split: option.splits)

lemma rooms_leaveRoom:
  "rooms (leaveRoom p r s) =
     (case rooms s r of
        None \<Rightarrow> rooms s
      | Some room \<Rightarrow>
          if set (users room) \<subseteq> {p} then (rooms s)(r := None)
          else (rooms s)(r \<mapsto> room\<lparr>users := set_delete p (users room),
                                      locations := AList.delete p (locations room)\<rparr>))"
  by (simp add: leaveRoom_def Let_def set_delete_Nil_iff split: option.splits)

lemma leaveRoom_frame:
  "socket_roomId (leaveRoom p r s) = socket_roomId s"
  "adapter_rooms (leaveRoom p r s) = adapter_rooms s"
  by (simp_all add: leaveRoom_def Let_def split: option.splits)

lemma join_room_unfold:
  "join_room p r s =
     (let s1 = leave_previous p s;
          room = (case rooms s1 r of None \<Rightarrow> \<lparr>users = [], locations = []\<rparr> | Some room \<Rightarrow> room);
          room' = room\<lparr>users := set_add p (users room)\<rparr>
      in (s1\<lparr>socket_roomId := (socket_roomId s1)(p \<mapsto> r),
              adapter_rooms := (adapter_rooms s1)(r := insert p (adapter_rooms s1 r)),
              rooms := (rooms s1)(r \<mapsto> room')\<rparr>,
          [(insert p (adapter_rooms s1 r) - {p}, UserJoined p),
           ({p}, RoomState (filter (\<lambda>id. id \<noteq> p) (users room'))
                           (map (\<lambda>(id, loc). (id, lat loc, lng loc)) (locations room')))]))"
  by (simp add: join_room_def leave_previous_def Let_def split: option.splits)

lemma leave_previous_frame:
  "socket_roomId (leave_previous p s) = socket_roomId s"
  "adapter_rooms (leave_previous p s) = adapter_rooms s"
  by (simp_all add: leave_previous_def leaveRoom_frame split: option.splits)

lemma leaveRoom_registry_ok: "registry_ok s \<Longrightarrow> registry_ok (leaveRoom p r s)"
  by (auto simp: registry_ok_iff rooms_leaveRoom set_delete_Nil_iff split: option.splits if_splits)

lemma set_add_not_Nil: "set_add p xs \<noteq> []"
  by (auto simp: set_add_def)

lemma leave_previous_registry_ok: "registry_ok s \<Longrightarrow> registry_ok (leave_previous p s)"
  by (simp add: leave_previous_def leaveRoom_registry_ok split: option.splits)

lemma join_room_registry_ok:
  assumes "registry_ok s" shows "registry_ok (fst (join_room p r s))"
  using leave_previous_registry_ok [OF assms, of p]
  by (auto simp: join_room_unfold registry_ok_iff Let_def set_add_not_Nil)

lemma disconnect_registry_ok: "registry_ok s \<Longrightarrow> registry_ok (fst (disconnect p s))"
proof -
  assume a: "registry_ok s"
  have b: "registry_ok (s\<lparr>adapter_rooms := f\<rparr>)" for f
    using a by (simp add: registry_ok_iff)
  show ?thesis
    by (auto simp: disconnect_def Let_def b leaveRoom_registry_ok split: option.splits)
qed

lemma location_update_registry_ok: "registry_ok s \<Longrightarrow> registry_ok (fst (location_update p d s))"
  by (auto simp: registry_ok_iff location_update_def split: option.splits)

lemma webrtc_signal_state: "fst (webrtc_signal p d s) = s"
  by (simp add: webrtc_signal_def split: option.splits)

lemma step_registry_ok: "registry_ok s \<Longrightarrow> registry_ok (fst (step q s))"
  by (cases q)
    (simp_all add: join_room_registry_ok disconnect_registry_ok location_update_registry_ok
      webrtc_signal_state, simp add: registry_ok_iff connection_def)

lemma initial_registry_ok: "registry_ok initial"
  by (simp add: registry_ok_iff initial_def)

lemma run_registry_ok: "registry_ok s \<Longrightarrow> registry_ok (run qs s)"
  by (induction qs arbitrary: s) (simp_all add: step_registry_ok)

lemma join_room_creates:
  "\<exists>room. rooms (fst (join_room p r s)) r = Some room \<and> p \<in> set (users room)"
  by (simp add: join_room_unfold Let_def set_set_add)

lemma leaveRoom_last:
  "rooms s r = Some room \<Longrightarrow> set (users room) \<subseteq> {p} \<Longrightarrow> rooms (leaveRoom p r s) r = None"
  by (simp add: rooms_leaveRoom)

text \<open>
  Claim C3. After any request is processed, the registry has an entry for a room name if
  and only if that room has a participant: this holds after every sequence of requests
  from the empty registry, every single step and the helper \<open>leaveRoom\<close> keep it, a join
  leaves the joined room with an entry and a participant, and removing the last
  participant removes the entry in that same call.
\<close>

theorem registry_entry_iff_participants:
  "registry_ok (run qs initial) \<and>
   (registry_ok s \<longrightarrow>
      registry_ok (fst (step q s)) \<and> registry_ok (leaveRoom p r s)) \<and>
   participants (fst (join_room p r s)) r \<noteq> {} \<and>
   (participants s r \<subseteq> {p} \<longrightarrow> rooms (leaveRoom p r s) r = None)"
  by (auto simp: run_registry_ok initial_registry_ok step_registry_ok leaveRoom_registry_ok
      participants_def rooms_leaveRoom join_room_unfold Let_def set_set_add
      split: option.splits)

theorem registry_entry_iff_participants_witness:
  "registry_ok (run [Connection ''A'', JoinRoom ''A'' ''R'' :: (int, string) request] initial) \<and>
   registry_ok (fst (step (Disconnect ''A'' :: (int, string) request)
      (run [Connection ''A'', JoinRoom ''A'' ''R'' :: (int, string) request] initial))) \<and>
   participants (run [Connection ''A'', JoinRoom ''A'' ''R'' :: (int, string) request] initial) ''R'' \<subseteq> {''A''} \<and>
   rooms (leaveRoom ''A'' ''R'' (run [Connection ''A'', JoinRoom ''A'' ''R'' :: (int, string) request] initial)) ''R'' = None"
proof -
  let ?qs = "[Connection ''A'', JoinRoom ''A'' ''R''] :: (int, string) request list"
  let ?s = "run ?qs (initial :: int server)"
  note main = registry_entry_iff_participants [of ?qs ?s "Disconnect ''A'' :: (int, string) request" "''A''" "''R''"]
  have ok: "registry_ok ?s"
    using main by blast
  have sub: "participants ?s ''R'' \<subseteq> {''A''}"
    by (simp add: participants_def join_room_def connection_def initial_def set_add_def Let_def)
  from main ok sub show ?thesis
    by blast
qed

text \<open>
  Claim C10. The disconnect of a socket that never joined a room (its \<open>roomId\<close> property
  is still undefined) leaves the rooms registry as it was and emits nothing.
\<close>

theorem disconnect_without_room_is_noop:
  "socket_roomId s p = None \<Longrightarrow>
     rooms (fst (disconnect p s)) = rooms s \<and> snd (disconnect p s) = []"
  by (simp add: disconnect_def)

theorem disconnect_without_room_is_noop_witness:
  "socket_roomId (run [Connection ''A'', JoinRoom ''A'' ''R'', Connection ''B'' :: (int, string) request] initial) ''B'' = None \<and>
   rooms (fst (disconnect ''B'' (run [Connection ''A'', JoinRoom ''A'' ''R'', Connection ''B'' :: (int, string) request] initial)))
     = rooms (run [Connection ''A'', JoinRoom ''A'' ''R'', Connection ''B'' :: (int, string) request] initial) \<and>
   snd (disconnect ''B'' (run [Connection ''A'', JoinRoom ''A'' ''R'', Connection ''B'' :: (int, string) request] initial))
     = ([] :: (int, string) emission list)"
proof -
  let ?s = "run [Connection ''A'', JoinRoom ''A'' ''R'', Connection ''B'' :: (int, string) request] initial"
  have h: "socket_roomId ?s ''B'' = None"
    by (simp add: join_room_def connection_def initial_def Let_def)
  from disconnect_without_room_is_noop [OF h] h show ?thesis
    by simp
qed

text \<open>
  Claim C5. Every signal the coordinator forwards, to a target or to the room, carries the
  sending socket's own id as \<open>from\<close>, and the \<open>from\<close> of the request has no effect: two
  requests that differ in it only give the same state and the same emissions.
\<close>

theorem relay_from_is_sender:
  "webrtc_signal p (d\<lparr>sd_from := f1\<rparr>) s = webrtc_signal p (d\<lparr>sd_from := f2\<rparr>) s \<and>
   (\<forall>e \<in> set (snd (webrtc_signal p d s)). \<exists>r g. snd e = WebrtcSignal r p g)"
  by (auto simp: webrtc_signal_def split: option.splits)

theorem relay_from_is_sender_witness:
  "webrtc_signal ''A'' \<lparr>sd_roomId = ''R'', sd_from = ''A'', sd_to = Some ''B'', sd_signal = ''offer''\<rparr>
      (run [Connection ''A'', Connection ''B'', JoinRoom ''A'' ''R'', JoinRoom ''B'' ''R'' :: (int, string) request] initial)
   = webrtc_signal ''A'' \<lparr>sd_roomId = ''R'', sd_from = ''B'', sd_to = Some ''B'', sd_signal = ''offer''\<rparr>
      (run [Connection ''A'', Connection ''B'', JoinRoom ''A'' ''R'', JoinRoom ''B'' ''R'' :: (int, string) request] initial) \<and>
   snd (webrtc_signal ''A'' \<lparr>sd_roomId = ''R'', sd_from = ''B'', sd_to = Some ''B'', sd_signal = ''offer''\<rparr>
      (run [Connection ''A'', Connection ''B'', JoinRoom ''A'' ''R'', JoinRoom ''B'' ''R'' :: (int, string) request] initial))
   = [({''B''}, WebrtcSignal ''R'' ''A'' ''offer'' :: (int, string) event)]"
proof -
  let ?s = "run [Connection ''A'', Connection ''B'', JoinRoom ''A'' ''R'', JoinRoom ''B'' ''R'' :: (int, string) request] initial"
  let ?d = "\<lparr>sd_roomId = ''R'', sd_from = ''A'', sd_to = Some ''B'', sd_signal = ''offer''\<rparr>"
  have e: "snd (webrtc_signal ''A'' (?d\<lparr>sd_from := ''B''\<rparr>) ?s)
      = [({''B''}, WebrtcSignal ''R'' ''A'' ''offer'' :: (int, string) event)]"
    by (simp add: webrtc_signal_def join_room_def connection_def initial_def Let_def truthy_def
        leaveRoom_def set_add_def)
  from relay_from_is_sender [where p = "''A''" and d = ?d and ?f1.0 = "''A''" and ?f2.0 = "''B''" and s = ?s] e show ?thesis
    by simp
qed

subsection \<open>The registry, the adapter and the sockets agree\<close>

lemma keys_delete: "fst ` set (AList.delete p xs) = fst ` set xs - {p}"
  by (induction xs) auto

lemma keys_update: "fst ` set (AList.update p v xs) = insert p (fst ` set xs)"
  by (induction xs) auto

lemma in_keys: "(p, b) \<in> set xs \<Longrightarrow> p \<in> fst ` set xs"
  by force

lemma in_set_delete: "((q, b) \<in> set (AList.delete p xs)) = (q \<noteq> p \<and> (q, b) \<in> set xs)"
  by (auto simp: AList.delete_eq)

lemma coherent_users:
  "coherent s \<Longrightarrow> rooms s r = Some room \<Longrightarrow> p \<in> set (users room) \<Longrightarrow>
     p \<in> adapter_rooms s r \<and> socket_roomId s p = Some r"
  unfolding coherent_def by blast

lemma coherent_locations:
  "coherent s \<Longrightarrow> rooms s r = Some room \<Longrightarrow> (p, l) \<in> set (locations room) \<Longrightarrow>
     socket_roomId s p = Some r"
  unfolding coherent_def by (blast intro: in_keys)

lemma coherent_initial: "coherent initial"
  by (simp add: coherent_def initial_def)

lemma coherent_connection: "coherent s \<Longrightarrow> coherent (connection p s)"
  by (auto simp: coherent_def connection_def)

lemma coherent_leaveRoom: "coherent s \<Longrightarrow> coherent (leaveRoom p r s)"
  unfolding coherent_def
  by (auto simp: rooms_leaveRoom leaveRoom_frame set_set_delete keys_delete
      split: option.splits if_splits)

lemma coherent_leave_previous: "coherent s \<Longrightarrow> coherent (leave_previous p s)"
  by (simp add: leave_previous_def coherent_leaveRoom split: option.splits)

lemma leave_previous_away:
  assumes "coherent s" and "rooms (leave_previous p s) r = Some room"
  shows "p \<notin> set (users room) \<and> p \<notin> fst ` set (locations room)"
proof (cases "socket_roomId s p")
  case None
  with assms show ?thesis
    by (auto simp: leave_previous_def dest: coherent_users coherent_locations)
next
  case (Some old)
  with assms(1) have "truthy old"
    by (auto simp: coherent_def truthy_def)
  with Some assms show ?thesis
    by (auto simp: leave_previous_def rooms_leaveRoom set_set_delete in_set_delete
        split: option.splits if_splits dest: coherent_users coherent_locations)
qed

lemma coherent_join_room:
  assumes "coherent s" and "r \<noteq> []"
  shows "coherent (fst (join_room p r s))"
proof -
  define s1 where "s1 = leave_previous p s"
  have c1: "coherent s1"
    using assms(1) by (simp add: s1_def coherent_leave_previous)
  have away: "p \<notin> set (users room) \<and> p \<notin> fst ` set (locations room)"
    if "rooms s1 r' = Some room" for r' room
    using leave_previous_away [OF assms(1)] that by (simp add: s1_def)
  show ?thesis
    unfolding join_room_unfold s1_def [symmetric] Let_def fst_conv
    using c1 away assms(2) unfolding coherent_def
    by (auto simp: set_set_add split: option.splits if_splits)
qed

lemma coherent_disconnect:
  assumes "coherent s"
  shows "coherent (fst (disconnect p s))"
proof -
  define s0 where "s0 = s\<lparr>adapter_rooms := (\<lambda>r. adapter_rooms s r - {p})\<rparr>"
  show ?thesis
  proof (cases "socket_roomId s p")
    case None
    with assms show ?thesis
      unfolding coherent_def by (auto simp: disconnect_def Let_def)
  next
    case (Some old)
    with assms have "truthy old"
      by (auto simp: coherent_def truthy_def)
    with Some assms show ?thesis
      unfolding coherent_def
      by (auto simp: disconnect_def Let_def rooms_leaveRoom leaveRoom_frame set_set_delete keys_delete
        split: option.splits if_splits)
  qed
qed

lemma coherent_location_update: "coherent s \<Longrightarrow> coherent (fst (location_update p d s))"
  unfolding coherent_def
  by (auto simp: location_update_def keys_update split: option.splits if_splits)


lemma coherent_step: "coherent s \<Longrightarrow> admissible s q \<Longrightarrow> coherent (fst (step q s))"
  by (cases q)
    (simp_all add: coherent_connection coherent_join_room coherent_disconnect
      coherent_location_update webrtc_signal_state)

lemma coherent_run: "coherent s \<Longrightarrow> admissible_run s qs \<Longrightarrow> coherent (run qs s)"
  by (induction qs arbitrary: s) (simp_all add: coherent_step)

lemma keys_room_state:
  "fst ` set (map (\<lambda>(id, loc). (id, lat loc, lng loc)) xs) = fst ` set xs"
  by (induction xs) auto

lemma join_room_emissions:
  fixes s :: "'v server" and out :: "('v, 'g) emission list"
  assumes "coherent s" and "join_room p r s = (s', out)"
  shows "\<exists>room locs.
           rooms s' r = Some room \<and>
           out = [(adapter_rooms s' r - {p}, UserJoined p),
                  ({p}, RoomState (filter (\<lambda>id. id \<noteq> p) (users room)) locs)] \<and>
           set (filter (\<lambda>id. id \<noteq> p) (users room)) = participants s' r - {p} \<and>
           p \<notin> fst ` set locs"
proof -
  define s1 where "s1 = leave_previous p s"
  have away: "(p, l) \<notin> set (locations room)" if "rooms s1 r = Some room" for room l
  proof -
    from that have "p \<notin> fst ` set (locations room)"
      using leave_previous_away [OF assms(1), of p r room] by (simp add: s1_def)
    then show ?thesis by force
  qed
  show ?thesis
    using assms(2) away unfolding join_room_unfold s1_def [symmetric] Let_def
    by (auto simp: participants_def set_set_add keys_room_state split: option.splits)
qed

lemma join_room_reaches_members:
  fixes s :: "'v server" and out :: "('v, 'g) emission list"
  assumes "coherent s" and "r \<noteq> []" and "join_room p r s = (s', out)"
  shows "participants s' r - {p} \<subseteq> adapter_rooms s' r - {p}"
proof -
  have "fst (join_room p r s :: 'v server \<times> ('v, 'g) emission list) = s'"
    using assms(3) by simp
  with coherent_join_room [OF assms(1,2), of p] have "coherent s'"
    by metis
  then show ?thesis
    by (auto simp: participants_def split: option.splits dest: coherent_users)
qed

lemma step_never_names_recipient:
  fixes s :: "'v server" and q :: "('v, 'g) request"
  assumes "coherent s" and "(R, ev) \<in> set (snd (step q s))" and "x \<in> R"
  shows "\<not> names x ev"
proof (cases q)
  case (JoinRoom p r)
  obtain s' and out :: "('v, 'g) emission list" where j: "join_room p r s = (s', out)"
    by (cases "join_room p r s :: 'v server \<times> ('v, 'g) emission list")
  from join_room_emissions [OF assms(1) j] assms(2,3) JoinRoom j show ?thesis
    by auto
next
  case (Connection p)
  with assms show ?thesis by simp
next
  case (Signal p d)
  with assms show ?thesis
    by (auto simp: webrtc_signal_def split: option.splits if_splits)
next
  case (Location p d)
  with assms show ?thesis
    by (auto simp: location_update_def split: option.splits if_splits)
next
  case (Disconnect p)
  with assms show ?thesis
    by (auto simp: disconnect_def Let_def split: option.splits if_splits)
qed

text \<open>
  Claim C2. In every state the coordinator reaches, a join of participant \<open>p\<close> to room \<open>r\<close>
  emits exactly two events: \<open>user-joined{p}\<close> to the adapter room \<open>r\<close> without \<open>p\<close>, which
  covers every other participant the registry has for \<open>r\<close>, and to \<open>p\<close> alone a
  \<open>room-state\<close> whose \<open>users\<close> are the participants of \<open>r\<close> without \<open>p\<close> and whose
  \<open>locations\<close> have no entry for \<open>p\<close>. Hence no emission of any step delivers to a socket
  a \<open>user-joined\<close> or \<open>room-state\<close> entry that names that socket.
\<close>

theorem join_room_never_names_the_joiner:
  fixes s :: "'v server" and qs :: "('v, 'g) request list" and q :: "('v, 'g) request"
    and out :: "('v, 'g) emission list"
  assumes "admissible_run initial qs" and "s = run qs initial"
  shows "(admissible s (JoinRoom p r :: ('v, 'g) request) \<longrightarrow> join_room p r s = (s', out) \<longrightarrow>
            (\<exists>room locs.
               rooms s' r = Some room \<and>
               out = [(adapter_rooms s' r - {p}, UserJoined p),
                      ({p}, RoomState (filter (\<lambda>id. id \<noteq> p) (users room)) locs)] \<and>
               set (filter (\<lambda>id. id \<noteq> p) (users room)) = participants s' r - {p} \<and>
               p \<notin> fst ` set locs) \<and>
            participants s' r - {p} \<subseteq> adapter_rooms s' r - {p}) \<and>
         (\<forall>(R, ev) \<in> set (snd (step q s)). \<forall>x \<in> R. \<not> names x ev)"
proof -
  have c: "coherent s"
    using assms coherent_run [OF coherent_initial] by simp
  have names: "\<forall>(R, ev) \<in> set (snd (step q s)). \<forall>x \<in> R. \<not> names x ev"
    using step_never_names_recipient [OF c, of _ _ q] by blast
  have join: "(\<exists>room locs.
               rooms s' r = Some room \<and>
               out = [(adapter_rooms s' r - {p}, UserJoined p),
                      ({p}, RoomState (filter (\<lambda>id. id \<noteq> p) (users room)) locs)] \<and>
               set (filter (\<lambda>id. id \<noteq> p) (users room)) = participants s' r - {p} \<and>
               p \<notin> fst ` set locs) \<and>
            participants s' r - {p} \<subseteq> adapter_rooms s' r - {p}"
    if "r \<noteq> []" and "join_room p r s = (s', out)"
    using join_room_emissions [OF c that(2)] join_room_reaches_members [OF c that] by blast
  from names join show ?thesis
    by simp
qed

theorem join_room_never_names_the_joiner_witness:
  "admissible_run initial [Connection ''A'', Connection ''B'', JoinRoom ''A'' ''R'' :: (int, string) request] \<and>
   admissible (run [Connection ''A'', Connection ''B'', JoinRoom ''A'' ''R'' :: (int, string) request] initial)
     (JoinRoom ''B'' ''R'' :: (int, string) request) \<and>
   snd (join_room ''B'' ''R'' (run [Connection ''A'', Connection ''B'', JoinRoom ''A'' ''R'' :: (int, string) request] initial))
     = [({''A''}, UserJoined ''B''), ({''B''}, RoomState [''A''] [] :: (int, string) event)] \<and>
   participants (fst (join_room ''B'' ''R'' (run [Connection ''A'', Connection ''B'', JoinRoom ''A'' ''R'' :: (int, string) request] initial)
       :: int server \<times> (int, string) emission list)) ''R'' - {''B''}
     \<subseteq> adapter_rooms (fst (join_room ''B'' ''R'' (run [Connection ''A'', Connection ''B'', JoinRoom ''A'' ''R'' :: (int, string) request] initial)
       :: int server \<times> (int, string) emission list)) ''R'' - {''B''}"
proof -
  let ?qs = "[Connection ''A'', Connection ''B'', JoinRoom ''A'' ''R''] :: (int, string) request list"
  let ?s = "run ?qs initial"
  let ?j = "join_room ''B'' ''R'' ?s :: int server \<times> (int, string) emission list"
  have a: "admissible_run initial ?qs"
    by (simp add: connected_def connection_def initial_def join_room_def Let_def)
  have b: "admissible ?s (JoinRoom ''B'' ''R'' :: (int, string) request)"
    by (simp add: connected_def connection_def initial_def join_room_def Let_def)
  have e: "?j = (fst ?j, snd ?j)"
    by simp
  have out: "snd ?j = [({''A''}, UserJoined ''B''), ({''B''}, RoomState [''A''] [])]"
    by (simp add: connection_def initial_def join_room_def Let_def set_add_def)
  from join_room_never_names_the_joiner [OF a refl, of "''B''" "''R''" "fst ?j" "snd ?j"] b e
  have "participants (fst ?j) ''R'' - {''B''} \<subseteq> adapter_rooms (fst ?j) ''R'' - {''B''}"
    by blast
  with a b out show ?thesis
    by blast
qed

subsection \<open>The lists stay sets and maps\<close>

lemma distinct_set_add: "distinct xs \<Longrightarrow> distinct (set_add p xs)"
  by (simp add: set_add_def)

lemma distinct_set_delete: "distinct xs \<Longrightarrow> distinct (set_delete p xs)"
  by (simp add: set_delete_def distinct_removeAll)

lemma lists_distinct_leaveRoom: "lists_distinct s \<Longrightarrow> lists_distinct (leaveRoom p r s)"
  unfolding lists_distinct_def
  by (auto simp: rooms_leaveRoom distinct_set_delete distinct_delete split: option.splits if_splits)

lemma lists_distinct_leave_previous: "lists_distinct s \<Longrightarrow> lists_distinct (leave_previous p s)"
  by (simp add: leave_previous_def lists_distinct_leaveRoom split: option.splits)

lemma lists_distinct_join_room:
  assumes "lists_distinct s"
  shows "lists_distinct (fst (join_room p r s))"
proof -
  have "lists_distinct (leave_previous p s)"
    using assms by (rule lists_distinct_leave_previous)
  then show ?thesis
    unfolding lists_distinct_def
    by (auto simp: join_room_unfold Let_def distinct_set_add split: option.splits)
qed

lemma lists_distinct_disconnect: "lists_distinct s \<Longrightarrow> lists_distinct (fst (disconnect p s))"
proof -
  assume a: "lists_distinct s"
  have b: "lists_distinct (s\<lparr>adapter_rooms := f\<rparr>)" for f
    using a by (simp add: lists_distinct_def)
  show ?thesis
    by (auto simp: disconnect_def Let_def b lists_distinct_leaveRoom split: option.splits)
qed

lemma lists_distinct_location_update:
  "lists_distinct s \<Longrightarrow> lists_distinct (fst (location_update p d s))"
  unfolding lists_distinct_def
  by (auto simp: location_update_def distinct_update split: option.splits)

lemma lists_distinct_step: "lists_distinct s \<Longrightarrow> lists_distinct (fst (step q s))"
  by (cases q)
    (simp_all add: lists_distinct_join_room lists_distinct_disconnect
      lists_distinct_location_update webrtc_signal_state, simp add: lists_distinct_def connection_def)

lemma lists_distinct_run: "lists_distinct s \<Longrightarrow> lists_distinct (run qs s)"
  by (induction qs arbitrary: s) (simp_all add: lists_distinct_step)

lemma lists_distinct_initial: "lists_distinct initial"
  by (simp add: lists_distinct_def initial_def)

lemma map_of_update_other: "q \<noteq> p \<Longrightarrow> map_of (AList.update p v xs) q = map_of xs q"
  by (simp add: AList.update_conv)

lemma run_reaches_members:
  fixes qs :: "('v, 'g) request list"
  assumes "admissible_run initial qs"
  shows "participants (run qs initial) r \<subseteq> adapter_rooms (run qs initial) r"
proof -
  have "coherent (run qs initial)"
    using coherent_run [OF coherent_initial assms] .
  then show ?thesis
    by (auto simp: participants_def split: option.splits dest: coherent_users)
qed

text \<open>
  Claim C6. A \<open>location-update\<close> whose \<open>roomId\<close> is not the room the socket is registered
  in, or names a room with no registry entry, is a no-op: the state (the registry with its
  locations) is returned as it was and nothing is emitted. Otherwise the sender's entry in
  the room's \<open>locations\<close> becomes the new position, the entries of the others stay, and one
  \<open>location-update{userId, lat, lng}\<close> with the sender's id goes to the adapter room
  without the sender; in a state the coordinator reaches that covers every other
  participant of the room, and the sender has one entry only.
\<close>

theorem location_update_guarded:
  fixes s :: "'v server" and qs :: "('v, 'g) request list"
  shows
  "(socket_roomId s p \<noteq> Some (ld_roomId d) \<or> rooms s (ld_roomId d) = None \<longrightarrow>
      location_update p d s = (s, ([] :: ('v, 'g) emission list))) \<and>
   (socket_roomId s p = Some (ld_roomId d) \<longrightarrow> rooms s (ld_roomId d) = Some room \<longrightarrow>
      (\<exists>locs.
         location_update p d s =
           (s\<lparr>rooms := (rooms s)(ld_roomId d \<mapsto> room\<lparr>locations := locs\<rparr>)\<rparr>,
            [(adapter_rooms s (ld_roomId d) - {p},
              LocationUpdate (ld_roomId d) p (ld_lat d) (ld_lng d) :: ('v, 'g) event)]) \<and>
         map_of locs p = Some \<lparr>lat = ld_lat d, lng = ld_lng d\<rparr> \<and>
         (\<forall>q. q \<noteq> p \<longrightarrow> map_of locs q = map_of (locations room) q) \<and>
         (admissible_run initial qs \<longrightarrow> s = run qs initial \<longrightarrow>
            distinct (map fst locs) \<and>
            participants s (ld_roomId d) - {p} \<subseteq> adapter_rooms s (ld_roomId d) - {p})))"
proof (intro conjI impI)
  assume "socket_roomId s p \<noteq> Some (ld_roomId d) \<or> rooms s (ld_roomId d) = None"
  then show "location_update p d s = (s, ([] :: ('v, 'g) emission list))"
    by (auto simp: location_update_def)
next
  let ?locs = "AList.update p \<lparr>lat = ld_lat d, lng = ld_lng d\<rparr> (locations room)"
  assume g: "socket_roomId s p = Some (ld_roomId d)" "rooms s (ld_roomId d) = Some room"
  have 1: "location_update p d s =
           (s\<lparr>rooms := (rooms s)(ld_roomId d \<mapsto> room\<lparr>locations := ?locs\<rparr>)\<rparr>,
            [(adapter_rooms s (ld_roomId d) - {p},
              LocationUpdate (ld_roomId d) p (ld_lat d) (ld_lng d) :: ('v, 'g) event)])"
    using g by (simp add: location_update_def)
  have 2: "map_of ?locs p = Some \<lparr>lat = ld_lat d, lng = ld_lng d\<rparr>"
    by (simp add: AList.update_conv)
  have 3: "\<forall>q. q \<noteq> p \<longrightarrow> map_of ?locs q = map_of (locations room) q"
    by (simp add: map_of_update_other)
  have 4: "distinct (map fst ?locs) \<and>
      participants s (ld_roomId d) - {p} \<subseteq> adapter_rooms s (ld_roomId d) - {p}"
    if "admissible_run initial qs" "s = run qs initial"
  proof -
    have "lists_distinct s"
      using that(2) lists_distinct_run [OF lists_distinct_initial] by simp
    with g(2) have "distinct (map fst ?locs)"
      by (simp add: lists_distinct_def distinct_update)
    moreover have "participants s (ld_roomId d) \<subseteq> adapter_rooms s (ld_roomId d)"
      using run_reaches_members [OF that(1)] that(2) by simp
    ultimately show ?thesis by blast
  qed
  from 1 2 3 4 show "\<exists>locs.
         location_update p d s =
           (s\<lparr>rooms := (rooms s)(ld_roomId d \<mapsto> room\<lparr>locations := locs\<rparr>)\<rparr>,
            [(adapter_rooms s (ld_roomId d) - {p},
              LocationUpdate (ld_roomId d) p (ld_lat d) (ld_lng d) :: ('v, 'g) event)]) \<and>
         map_of locs p = Some \<lparr>lat = ld_lat d, lng = ld_lng d\<rparr> \<and>
         (\<forall>q. q \<noteq> p \<longrightarrow> map_of locs q = map_of (locations room) q) \<and>
         (admissible_run initial qs \<longrightarrow> s = run qs initial \<longrightarrow>
            distinct (map fst locs) \<and>
            participants s (ld_roomId d) - {p} \<subseteq> adapter_rooms s (ld_roomId d) - {p})"
    by blast
qed

theorem location_update_guarded_witness:
  "location_update ''B'' \<lparr>ld_roomId = ''X'', ld_lat = 5, ld_lng = 6\<rparr>
      (run [Connection ''A'', Connection ''B'', JoinRoom ''A'' ''R'', JoinRoom ''B'' ''R'' :: (int, string) request] initial)
    = (run [Connection ''A'', Connection ''B'', JoinRoom ''A'' ''R'', JoinRoom ''B'' ''R'' :: (int, string) request] initial,
       ([] :: (int, string) emission list)) \<and>
   snd (location_update ''A'' \<lparr>ld_roomId = ''R'', ld_lat = 1, ld_lng = 2\<rparr>
      (run [Connection ''A'', Connection ''B'', JoinRoom ''A'' ''R'', JoinRoom ''B'' ''R'' :: (int, string) request] initial))
    = [({''B''}, LocationUpdate ''R'' ''A'' 1 2 :: (int, string) event)] \<and>
   map_option locations (rooms (fst (location_update ''A'' \<lparr>ld_roomId = ''R'', ld_lat = 1, ld_lng = 2\<rparr>
      (run [Connection ''A'', Connection ''B'', JoinRoom ''A'' ''R'', JoinRoom ''B'' ''R'' :: (int, string) request] initial)
      :: int server \<times> (int, string) emission list)) ''R'')
    = Some [(''A'', \<lparr>lat = 1, lng = 2\<rparr>)] \<and>
   participants (run [Connection ''A'', Connection ''B'', JoinRoom ''A'' ''R'', JoinRoom ''B'' ''R'' :: (int, string) request] initial) ''R'' - {''A''}
    \<subseteq> adapter_rooms (run [Connection ''A'', Connection ''B'', JoinRoom ''A'' ''R'', JoinRoom ''B'' ''R'' :: (int, string) request] initial) ''R'' - {''A''}"
proof -
  let ?qs = "[Connection ''A'', Connection ''B'', JoinRoom ''A'' ''R'', JoinRoom ''B'' ''R''] :: (int, string) request list"
  let ?s = "run ?qs initial"
  let ?dA = "\<lparr>ld_roomId = ''R'', ld_lat = 1 :: int, ld_lng = 2\<rparr>"
  let ?dB = "\<lparr>ld_roomId = ''X'', ld_lat = 5 :: int, ld_lng = 6\<rparr>"
  have a: "admissible_run initial ?qs"
    by (simp add: connected_def connection_def initial_def join_room_def Let_def)
  have sB: "socket_roomId ?s ''B'' \<noteq> Some (ld_roomId ?dB)"
    by (simp add: connection_def initial_def join_room_def Let_def)
  have sA: "socket_roomId ?s ''A'' = Some (ld_roomId ?dA)"
    by (simp add: connection_def initial_def join_room_def Let_def)
  have rA: "rooms ?s (ld_roomId ?dA) = Some \<lparr>users = [''A'', ''B''], locations = []\<rparr>"
    by (simp add: connection_def initial_def join_room_def Let_def set_add_def)
  have ad: "adapter_rooms ?s ''R'' - {''A''} = {''B''}"
    by (auto simp: connection_def initial_def join_room_def Let_def)
  from location_update_guarded [where s = ?s and p = "''B''" and d = ?dB and ?'g = string] sB
  have 1: "location_update ''B'' ?dB ?s = (?s, ([] :: (int, string) emission list))"
    by blast
  from location_update_guarded [where s = ?s and p = "''A''" and d = ?dA and qs = ?qs
      and room = "\<lparr>users = [''A'', ''B''], locations = []\<rparr>"] sA rA a
  obtain locs where
    2: "location_update ''A'' ?dA ?s =
         (?s\<lparr>rooms := (rooms ?s)(''R'' \<mapsto> \<lparr>users = [''A'', ''B''], locations = locs\<rparr>)\<rparr>,
          [(adapter_rooms ?s ''R'' - {''A''}, LocationUpdate ''R'' ''A'' 1 2 :: (int, string) event)])"
    and 3: "participants ?s ''R'' - {''A''} \<subseteq> adapter_rooms ?s ''R'' - {''A''}"
    by auto
  have 4: "map_option locations (rooms (fst (location_update ''A'' ?dA ?s
      :: int server \<times> (int, string) emission list)) ''R'') = Some [(''A'', \<lparr>lat = 1, lng = 2\<rparr>)]"
    by (simp add: location_update_def connection_def initial_def join_room_def Let_def set_add_def)
  from 1 2 3 4 ad show ?thesis
    by simp
qed

subsection \<open>A join from another room\<close>

text \<open>
  The registry side of the leave: the join handler takes the participant and its location
  out of the previous room and deletes that room when nobody is left.
\<close>

lemma join_room_leaves_old_registry:
  fixes s :: "'v server"
  assumes "socket_roomId s p = Some old" and "truthy old" and "old \<noteq> r"
    and "rooms s old = Some room"
  shows "rooms (fst (join_room p r s)) old =
           (if set (users room) \<subseteq> {p} then None
            else Some (room\<lparr>users := set_delete p (users room),
                             locations := AList.delete p (locations room)\<rparr>))"
  using assms
  by (simp add: join_room_unfold Let_def leave_previous_def rooms_leaveRoom)

text \<open>
  Claim C4. The join handler calls the helper \<open>leaveRoom\<close> for the previous room, which
  cleans the registry, but the \<open>user-left\<close> broadcast stands in the disconnect handler
  only: no emission of a join is a \<open>user-left\<close>. With A and B in room R1, the join of A to
  R2 leaves B alone in the registry entry of R1 and emits \<open>user-joined{A}\<close> to nobody and
  \<open>room-state\<close> to A, so B is never told that A left; A also stays in the adapter room
  R1, since the handler never calls \<open>socket.leave\<close>.
\<close>

theorem join_room_emits_no_user_left:
  "(R, UserLeft u) \<notin> set (snd (join_room p r s)) \<and>
   participants (run [Connection ''A'', Connection ''B'', JoinRoom ''A'' ''R1'', JoinRoom ''B'' ''R1'' :: (int, string) request] initial) ''R1''
     = {''A'', ''B''} \<and>
   join_room ''A'' ''R2''
     (run [Connection ''A'', Connection ''B'', JoinRoom ''A'' ''R1'', JoinRoom ''B'' ''R1'' :: (int, string) request] initial)
     = (\<lparr>rooms = [''R1'' \<mapsto> \<lparr>users = [''B''], locations = []\<rparr>,
                   ''R2'' \<mapsto> \<lparr>users = [''A''], locations = []\<rparr>],
         socket_roomId = [''A'' \<mapsto> ''R2'', ''B'' \<mapsto> ''R1''],
         adapter_rooms = (\<lambda>r. {})(''A'' := {''A''}, ''B'' := {''B''}, ''R1'' := {''A'', ''B''}, ''R2'' := {''A''})\<rparr>,
        [({}, UserJoined ''A''), ({''A''}, RoomState [] [] :: (int, string) event)])"
  apply (intro conjI)
    apply (simp add: join_room_unfold Let_def)
   apply (auto simp: participants_def connection_def initial_def join_room_def Let_def set_add_def)[1]
  apply (simp add: connection_def initial_def join_room_def Let_def set_add_def set_delete_def leaveRoom_def truthy_def)
  apply (auto simp: fun_eq_iff)
  done

section \<open>Properties of the session client\<close>

subsection \<open>What the helpers leave alone\<close>

lemma map_of_peer_ids: "(map_of (peerConnections c) u \<noteq> None) = (u \<in> peer_ids c)"
  by (simp add: peer_ids_def map_of_eq_None_iff)

lemma createPeerConnection_frame:
  "socket_id (createPeerConnection T u c) = socket_id c"
  "ROOM_ID (createPeerConnection T u c) = ROOM_ID c"
  "localStream (createPeerConnection T u c) = localStream c"
  "isInRoom (createPeerConnection T u c) = isInRoom c"
  "currentRoomUsers (createPeerConnection T u c) = currentRoomUsers c"
  by (simp_all add: createPeerConnection_def Let_def)

lemma peer_ids_createPeerConnection:
  "peer_ids (createPeerConnection T u c) =
     (if u = socket_id c then peer_ids c else insert u (peer_ids c))"
  by (auto simp: createPeerConnection_def Let_def peer_ids_def keys_update map_of_eq_None_iff)

lemma store_frame:
  "socket_id (store u pc c) = socket_id c"
  "ROOM_ID (store u pc c) = ROOM_ID c"
  "localStream (store u pc c) = localStream c"
  "isInRoom (store u pc c) = isInRoom c"
  "currentRoomUsers (store u pc c) = currentRoomUsers c"
  "constructed (store u pc c) = constructed c"
  by (simp_all add: store_def)

lemma peer_ids_store: "peer_ids (store u pc c) = insert u (peer_ids c)"
  by (simp add: store_def peer_ids_def keys_update)

lemma createOffer_frame:
  "socket_id (fst (createOffer T u c)) = socket_id c"
  "ROOM_ID (fst (createOffer T u c)) = ROOM_ID c"
  "localStream (fst (createOffer T u c)) = localStream c"
  "isInRoom (fst (createOffer T u c)) = isInRoom c"
  "currentRoomUsers (fst (createOffer T u c)) = currentRoomUsers c"
  "peer_ids (fst (createOffer T u c)) = peer_ids c"
  by (auto simp: createOffer_def store_frame peer_ids_store map_of_peer_ids [symmetric]
      split: option.splits)

text \<open>What every handler keeps: the socket id, and no peer connection to oneself.\<close>

lemma room_state_loop_keeps:
  "socket_id (fst (room_state_loop T us c)) = socket_id c \<and>
   (socket_id c \<notin> peer_ids c \<longrightarrow> socket_id c \<notin> peer_ids (fst (room_state_loop T us c)))"
proof (induction us arbitrary: c)
  case Nil
  show ?case by simp
next
  case (Cons u us)
  let ?c2 = "fst (createOffer T u (createPeerConnection T u c))"
  have id: "socket_id ?c2 = socket_id c"
    by (simp add: createOffer_frame createPeerConnection_frame)
  have ids: "peer_ids ?c2 = (if u = socket_id c then peer_ids c else insert u (peer_ids c))"
    by (simp add: createOffer_frame peer_ids_createPeerConnection)
  show ?case
    using Cons.IH [of ?c2] Cons.IH [of c] id ids
    by (auto simp: split_beta Let_def)
qed

lemma media_ready_loop_keeps:
  "socket_id (fst (media_ready_loop T us c)) = socket_id c \<and>
   (socket_id c \<notin> peer_ids c \<longrightarrow> socket_id c \<notin> peer_ids (fst (media_ready_loop T us c)))"
proof (induction us arbitrary: c)
  case Nil
  show ?case by simp
next
  case (Cons u us)
  let ?c2 = "fst (createOffer T u (createPeerConnection T u c))"
  have id: "socket_id ?c2 = socket_id c"
    by (simp add: createOffer_frame createPeerConnection_frame)
  have ids: "peer_ids ?c2 = (if u = socket_id c then peer_ids c else insert u (peer_ids c))"
    by (simp add: createOffer_frame peer_ids_createPeerConnection)
  show ?case
    using Cons.IH [of ?c2] id ids
    by (auto simp: split_beta Let_def)
qed

subsection \<open>No handler links the client to itself\<close>

lemma on_room_state_keeps:
  "socket_id (fst (on_room_state T us c)) = socket_id c \<and>
   (socket_id c \<notin> peer_ids c \<longrightarrow> socket_id c \<notin> peer_ids (fst (on_room_state T us c)))"
  using room_state_loop_keeps
    [of T us "c\<lparr>currentRoomUsers := set_add (socket_id c) (foldl (\<lambda>acc u. set_add u acc) [] us)\<rparr>"]
  by (simp add: on_room_state_def Let_def peer_ids_def)

lemma on_user_joined_keeps:
  "socket_id (fst (on_user_joined T u c)) = socket_id c \<and>
   (socket_id c \<notin> peer_ids c \<longrightarrow> socket_id c \<notin> peer_ids (fst (on_user_joined T u c)))"
proof -
  define c1 where "c1 = c\<lparr>currentRoomUsers := set_add u (currentRoomUsers c)\<rparr>"
  have "socket_id c1 = socket_id c" "peer_ids c1 = peer_ids c"
    by (simp_all add: c1_def peer_ids_def)
  then show ?thesis
    unfolding on_user_joined_def c1_def [symmetric] Let_def
    by (auto simp: createOffer_frame createPeerConnection_frame peer_ids_createPeerConnection)
qed

lemma on_user_left_keeps:
  "socket_id (fst (on_user_left u c)) = socket_id c \<and>
   (socket_id c \<notin> peer_ids c \<longrightarrow> socket_id c \<notin> peer_ids (fst (on_user_left u c)))"
  by (auto simp: on_user_left_def Let_def peer_ids_def keys_delete split: option.splits)

lemma on_webrtc_signal_keeps:
  "socket_id (fst (on_webrtc_signal T f sg c)) = socket_id c \<and>
   (socket_id c \<notin> peer_ids c \<longrightarrow> socket_id c \<notin> peer_ids (fst (on_webrtc_signal T f sg c)))"
proof -
  define c1 where "c1 = (if map_of (peerConnections c) f = None \<and> localStream c
                then createPeerConnection T f c else c)"
  have id: "socket_id c1 = socket_id c"
    by (simp add: c1_def createPeerConnection_frame)
  have ids: "socket_id c \<notin> peer_ids c \<Longrightarrow> socket_id c \<notin> peer_ids c1"
    by (auto simp: c1_def peer_ids_createPeerConnection)
  have st: "peer_ids (store f pc c1) = peer_ids c1" if "map_of (peerConnections c1) f = Some pc0" for pc pc0
    using that map_of_peer_ids [of c1 f] by (auto simp: peer_ids_store)
  show ?thesis
    unfolding on_webrtc_signal_def c1_def [symmetric] Let_def
    using id ids st
    by (auto simp: store_frame split: option.splits signal.splits)
qed

lemma startLocalStream_keeps:
  "socket_id (fst (startLocalStream T api c)) = socket_id c \<and>
   (socket_id c \<notin> peer_ids c \<longrightarrow> socket_id c \<notin> peer_ids (fst (startLocalStream T api c)))"
proof -
  have l: "socket_id (fst (media_ready_loop T us (c\<lparr>localStream := True\<rparr>))) = socket_id c \<and>
   (socket_id c \<notin> peer_ids c \<longrightarrow> socket_id c \<notin> peer_ids (fst (media_ready_loop T us (c\<lparr>localStream := True\<rparr>))))"
    for us
    using media_ready_loop_keeps [of T us "c\<lparr>localStream := True\<rparr>"]
    by (simp add: peer_ids_def)
  show ?thesis
    using l by (auto simp: startLocalStream_def Let_def split_beta peer_ids_def split: media_api.splits)
qed

lemma joinRoom_keeps:
  "socket_id (fst (joinRoom name c)) = socket_id c \<and>
   (socket_id c \<notin> peer_ids c \<longrightarrow> socket_id c \<notin> peer_ids (fst (joinRoom name c)))"
  by (auto simp: joinRoom_def Let_def peer_ids_def)

lemma client_step_keeps:
  "socket_id (fst (client_step T e c)) = socket_id c \<and>
   (socket_id c \<notin> peer_ids c \<longrightarrow> socket_id c \<notin> peer_ids (fst (client_step T e c)))"
proof (cases e)
  case (StartCall api)
  then show ?thesis
    using startLocalStream_keeps [of T api c]
    by (auto simp: split_beta)
qed (simp_all add: on_room_state_keeps on_user_joined_keeps on_user_left_keeps
    on_webrtc_signal_keeps joinRoom_keeps)

lemma client_run_keeps:
  "socket_id c \<notin> peer_ids c \<Longrightarrow>
     socket_id (client_run T es c) = socket_id c \<and> socket_id c \<notin> peer_ids (client_run T es c)"
proof (induction es arbitrary: c)
  case Nil
  then show ?case by simp
next
  case (Cons e es)
  from client_step_keeps [of T e c] Cons.prems
  have "socket_id (fst (client_step T e c)) = socket_id c"
    and "socket_id (fst (client_step T e c)) \<notin> peer_ids (fst (client_step T e c))"
    by simp_all
  with Cons.IH [of "fst (client_step T e c)"] show ?case
    by simp
qed

text \<open>
  Claim C9. \<open>createPeerConnection\<close> is idempotent and refuses a link to oneself: called
  for a user id that has a peer connection already it returns the state as it is (the map
  and the count of constructed transports included), called for the client's own id it
  returns the state as it is, calling it twice is calling it once, it never adds the own
  id, and after any sequence of events on a fresh client the map has no entry for the
  client's own id.
\<close>

theorem createPeerConnection_idempotent_no_self:
  "(userId \<in> peer_ids c \<longrightarrow> createPeerConnection T userId c = c) \<and>
   createPeerConnection T (socket_id c) c = c \<and>
   createPeerConnection T userId (createPeerConnection T userId c) = createPeerConnection T userId c \<and>
   (socket_id c \<notin> peer_ids c \<longrightarrow> socket_id c \<notin> peer_ids (createPeerConnection T userId c)) \<and>
   socket_id (client_run T es (fresh_client me)) = me \<and>
   me \<notin> peer_ids (client_run T es (fresh_client me))"
proof -
  have 1: "userId \<in> peer_ids c \<longrightarrow> createPeerConnection T userId c = c"
    by (simp add: createPeerConnection_def map_of_peer_ids [symmetric])
  have 2: "createPeerConnection T (socket_id c) c = c"
    by (simp add: createPeerConnection_def)
  have "userId \<noteq> socket_id c \<Longrightarrow> userId \<in> peer_ids (createPeerConnection T userId c)"
    by (simp add: peer_ids_createPeerConnection)
  then have 3: "createPeerConnection T userId (createPeerConnection T userId c) = createPeerConnection T userId c"
    using 2 by (cases "userId = socket_id c")
      (simp_all add: createPeerConnection_def [of T userId "createPeerConnection T userId c"]
        map_of_peer_ids [symmetric] createPeerConnection_frame)
  have 4: "socket_id c \<notin> peer_ids c \<longrightarrow> socket_id c \<notin> peer_ids (createPeerConnection T userId c)"
    by (simp add: peer_ids_createPeerConnection)
  have "socket_id (fresh_client me :: 'a client) \<notin> peer_ids (fresh_client me :: 'a client)"
    by (simp add: fresh_client_def peer_ids_def)
  from client_run_keeps [OF this, of T es] have 5: "socket_id (client_run T es (fresh_client me)) = me \<and>
   me \<notin> peer_ids (client_run T es (fresh_client me))"
    by (simp add: fresh_client_def)
  from 1 2 3 4 5 show ?thesis by blast
qed

text \<open>The definitions to unfold when a client is run on concrete events.\<close>

lemmas client_eval =
  joinRoom_def trim_def is_space_def truthy_def on_room_state_def on_user_joined_def
  on_user_left_def on_webrtc_signal_def startLocalStream_def createPeerConnection_def
  createOffer_def store_def browser_def fresh_client_def set_add_def set_delete_def Let_def

theorem createPeerConnection_idempotent_no_self_witness:
  "''B'' \<in> peer_ids (client_run browser
       [JoinClick ''R'', GotRoomState [''B''], StartCall (ModernAPI True)] (fresh_client ''A'')) \<and>
   createPeerConnection browser ''B'' (client_run browser
       [JoinClick ''R'', GotRoomState [''B''], StartCall (ModernAPI True)] (fresh_client ''A''))
     = client_run browser
       [JoinClick ''R'', GotRoomState [''B''], StartCall (ModernAPI True)] (fresh_client ''A'') \<and>
   socket_id (client_run browser
       [JoinClick ''R'', GotRoomState [''B''], StartCall (ModernAPI True)] (fresh_client ''A'')) = ''A'' \<and>
   ''A'' \<notin> peer_ids (createPeerConnection browser ''B'' (client_run browser
       [JoinClick ''R'', GotRoomState [''B''], StartCall (ModernAPI True)] (fresh_client ''A''))) \<and>
   constructed (client_run browser
       [JoinClick ''R'', GotRoomState [''B''], StartCall (ModernAPI True)] (fresh_client ''A'')) = 1"
proof -
  let ?es = "[JoinClick ''R'', GotRoomState [''B''], StartCall (ModernAPI True)]"
  let ?c = "client_run browser ?es (fresh_client ''A'')"
  note main = createPeerConnection_idempotent_no_self
    [where c = ?c and T = browser and userId = "''B''" and es = ?es and me = "''A''"]
  have h: "''B'' \<in> peer_ids ?c"
    by (simp add: client_eval peer_ids_def)
  have n: "constructed ?c = 1"
    by (simp add: client_eval)
  from main h have same: "createPeerConnection browser ''B'' ?c = ?c"
    by blast
  from main have me: "socket_id ?c = ''A''" and no: "''A'' \<notin> peer_ids ?c"
    by blast+
  from h same me no n show ?thesis
    by simp
qed

subsection \<open>Incoming signals\<close>

text \<open>
  Claim C7. An incoming \<open>offer\<close> for an existing peer connection is handed to
  \<open>setRemoteDescription\<close> whatever the state of that connection is (the handler reads
  nothing of it, so also when it holds a local offer of its own, and there is no rollback
  call); when the transport accepts it, the client creates an answer, sets it as the local
  description and sends it to the peer the offer came from, as a signal with \<open>to\<close> set.
\<close>

theorem incoming_offer_is_answered:
  assumes "map_of (peerConnections c) from_id = Some pc"
    and "rtc_setRemoteDescription T pc (Offer sdp) = Some pc1"
    and "rtc_createAnswer T pc1 = Some a"
    and "rtc_setLocalDescription T pc1 (Answer a) = Some pc2"
  shows "on_webrtc_signal T from_id (Offer sdp) c =
           (store from_id pc2 c,
            [EmitWebrtcSignal (ROOM_ID c) (socket_id c) from_id (Answer a)])"
  using assms by (simp add: on_webrtc_signal_def)

theorem incoming_offer_is_answered_witness:
  "map_of (peerConnections (client_run browser
       [JoinClick ''R'', GotRoomState [''B''], StartCall (ModernAPI True)] (fresh_client ''A''))) ''B''
     = Some \<lparr>localDescription = Some (Offer ''offer-sdp''), remoteDescription = None,
              iceCandidates = [], tracks = True\<rparr> \<and>
   on_webrtc_signal browser ''B'' (Offer ''remote-sdp'') (client_run browser
       [JoinClick ''R'', GotRoomState [''B''], StartCall (ModernAPI True)] (fresh_client ''A''))
     = (store ''B'' \<lparr>localDescription = Some (Answer ''answer-sdp''),
                      remoteDescription = Some (Offer ''remote-sdp''),
                      iceCandidates = [], tracks = True\<rparr>
          (client_run browser
             [JoinClick ''R'', GotRoomState [''B''], StartCall (ModernAPI True)] (fresh_client ''A'')),
        [EmitWebrtcSignal (Some ''R'') ''A'' ''B'' (Answer ''answer-sdp'')])"
proof -
  let ?c = "client_run browser
       [JoinClick ''R'', GotRoomState [''B''], StartCall (ModernAPI True)] (fresh_client ''A'')"
  let ?pc = "\<lparr>localDescription = Some (Offer ''offer-sdp''), remoteDescription = None,
              iceCandidates = [], tracks = True\<rparr>"
  let ?pc1 = "?pc\<lparr>remoteDescription := Some (Offer ''remote-sdp'')\<rparr>"
  let ?pc2 = "?pc1\<lparr>localDescription := Some (Answer ''answer-sdp'')\<rparr>"
  have 1: "map_of (peerConnections ?c) ''B'' = Some ?pc"
    by (simp add: client_eval)
  have 2: "rtc_setRemoteDescription browser ?pc (Offer ''remote-sdp'') = Some ?pc1"
    by (simp add: browser_def)
  have 3: "rtc_createAnswer browser ?pc1 = Some ''answer-sdp''"
    by (simp add: browser_def)
  have 4: "rtc_setLocalDescription browser ?pc1 (Answer ''answer-sdp'') = Some ?pc2"
    by (simp add: browser_def)
  have 5: "ROOM_ID ?c = Some ''R''" "socket_id ?c = ''A''"
    by (simp_all add: client_eval)
  from incoming_offer_is_answered [OF 1 2 3 4] 1 5 show ?thesis
    by simp
qed

text \<open>
  A candidate that the transport rejects leaves no trace: the handler returns the state it
  was given, and the state has no place to keep the candidate.
\<close>

lemma rejected_candidate_is_lost:
  assumes "map_of (peerConnections c) from_id = Some pc"
    and "rtc_addIceCandidate T pc cand = None"
  shows "on_webrtc_signal T from_id (Candidate cand) c = (c, [])"
  using assms by (simp add: on_webrtc_signal_def)

text \<open>
  Claim C1. The source has no candidate queue: the \<open>catch\<close> around \<open>addIceCandidate\<close> logs
  that it queues the candidate and stores nothing. On a transport that rejects a candidate
  before it has a remote description, two candidates from B that arrive before B's offer
  are lost: after the offer is applied the transport has been given no candidate, and only
  a candidate that arrives later reaches it.
\<close>

theorem early_candidates_are_dropped:
  "map_of (peerConnections (client_run browser
      [JoinClick ''R'', GotRoomState [], StartCall (ModernAPI True),
       GotSignal ''B'' (Candidate ''cand-1''), GotSignal ''B'' (Candidate ''cand-2''),
       GotSignal ''B'' (Offer ''remote-sdp'')]
      (fresh_client ''A''))) ''B''
   = Some \<lparr>localDescription = Some (Answer ''answer-sdp''),
            remoteDescription = Some (Offer ''remote-sdp''),
            iceCandidates = [], tracks = True\<rparr> \<and>
   map_of (peerConnections (client_run browser
      [JoinClick ''R'', GotRoomState [], StartCall (ModernAPI True),
       GotSignal ''B'' (Candidate ''cand-1''), GotSignal ''B'' (Candidate ''cand-2''),
       GotSignal ''B'' (Offer ''remote-sdp''), GotSignal ''B'' (Candidate ''cand-3'')]
      (fresh_client ''A''))) ''B''
   = Some \<lparr>localDescription = Some (Answer ''answer-sdp''),
            remoteDescription = Some (Offer ''remote-sdp''),
            iceCandidates = [''cand-3''], tracks = True\<rparr>"
  by (simp add: client_eval)

subsection \<open>Local media becomes ready\<close>

text \<open>
  On the modern path, with a transport that produces and accepts the offer, every other
  member of the room view gets a peer connection and an offer, also a member that joined
  while there was no stream.
\<close>

lemma createOffer_emits:
  assumes "u \<in> peer_ids c" and "localStream c"
    and "\<And>pc. rtc_createOffer T pc \<noteq> None"
    and "\<And>pc d. rtc_setLocalDescription T pc d \<noteq> None"
  shows "\<exists>sdp. snd (createOffer T u c) = [EmitWebrtcSignal (ROOM_ID c) (socket_id c) u (Offer sdp)]"
proof -
  from assms(1) obtain pc where pc: "map_of (peerConnections c) u = Some pc"
    using map_of_peer_ids [of c u] by auto
  from assms(3) [of pc] obtain sdp where sdp: "rtc_createOffer T pc = Some sdp"
    by blast
  from assms(4) [of pc "Offer sdp"] obtain pc' where
    "rtc_setLocalDescription T pc (Offer sdp) = Some pc'"
    by blast
  with pc sdp assms(2) show ?thesis
    by (simp add: createOffer_def)
qed

lemma media_ready_loop_grows:
  "peer_ids c \<subseteq> peer_ids (fst (media_ready_loop T us c))"
proof (induction us arbitrary: c)
  case Nil
  show ?case by simp
next
  case (Cons v us)
  let ?c2 = "fst (createOffer T v (createPeerConnection T v c))"
  have "peer_ids c \<subseteq> peer_ids ?c2"
    by (auto simp: createOffer_frame peer_ids_createPeerConnection)
  with Cons.IH [of ?c2] show ?case
    by (auto simp: split_beta Let_def)
qed

lemma media_ready_loop_offers:
  assumes "\<And>pc. rtc_createOffer T pc \<noteq> None"
    and "\<And>pc d. rtc_setLocalDescription T pc d \<noteq> None"
    and "localStream c" and "u \<in> set us" and "u \<noteq> socket_id c"
  shows "u \<in> peer_ids (fst (media_ready_loop T us c)) \<and>
         (\<exists>sdp. EmitWebrtcSignal (ROOM_ID c) (socket_id c) u (Offer sdp)
                   \<in> set (snd (media_ready_loop T us c)))"
  using assms(3-5)
proof (induction us arbitrary: c)
  case Nil
  then show ?case by simp
next
  case (Cons v us)
  let ?c1 = "createPeerConnection T v c"
  let ?c2 = "fst (createOffer T v ?c1)"
  have fr: "localStream ?c2" "socket_id ?c2 = socket_id c" "ROOM_ID ?c2 = ROOM_ID c"
    using Cons.prems(1) by (simp_all add: createOffer_frame createPeerConnection_frame)
  have unfold: "media_ready_loop T (v # us) c =
      (fst (media_ready_loop T us ?c2),
       snd (createOffer T v ?c1) @ snd (media_ready_loop T us ?c2))"
    by (simp add: split_beta Let_def)
  show ?case
  proof (cases "u = v")
    case True
    with Cons.prems have "u \<in> peer_ids ?c1"
      by (simp add: peer_ids_createPeerConnection)
    then have "u \<in> peer_ids ?c2"
      using True by (simp add: createOffer_frame)
    then have 1: "u \<in> peer_ids (fst (media_ready_loop T us ?c2))"
      using media_ready_loop_grows [of ?c2 T us] by blast
    have "\<exists>sdp. snd (createOffer T v ?c1) =
        [EmitWebrtcSignal (ROOM_ID ?c1) (socket_id ?c1) v (Offer sdp)]"
      using \<open>u \<in> peer_ids ?c1\<close> True Cons.prems(1) assms(1,2)
      by (intro createOffer_emits) (simp_all add: createPeerConnection_frame)
    then have 2: "\<exists>sdp. EmitWebrtcSignal (ROOM_ID c) (socket_id c) u (Offer sdp)
        \<in> set (snd (createOffer T v ?c1))"
      using True by (auto simp: createPeerConnection_frame)
    from 1 2 show ?thesis
      unfolding unfold by auto
  next
    case False
    with Cons.prems have "u \<in> set us" by simp
    from Cons.IH [OF fr(1) this] Cons.prems(3) fr show ?thesis
      unfolding unfold by auto
  qed
qed

lemma modern_media_path_offers_everyone:
  assumes "\<And>pc. rtc_createOffer T pc \<noteq> None"
    and "\<And>pc d. rtc_setLocalDescription T pc d \<noteq> None"
    and "isInRoom c" and "socket_id c \<in> set (currentRoomUsers c)"
    and "u \<in> set (currentRoomUsers c)" and "u \<noteq> socket_id c"
    and "startLocalStream T (ModernAPI True) c = (c', out, ok)"
  shows "u \<in> peer_ids c' \<and>
         (\<exists>sdp. EmitWebrtcSignal (ROOM_ID c) (socket_id c) u (Offer sdp) \<in> set out)"
proof -
  let ?c1 = "c\<lparr>localStream := True\<rparr>"
  let ?others = "filter (\<lambda>id. id \<noteq> socket_id c) (currentRoomUsers c)"
  have "length (currentRoomUsers c) > 1"
  proof (cases "currentRoomUsers c")
    case Nil
    with assms(4) show ?thesis by simp
  next
    case (Cons x xs)
    with assms(4,5,6) show ?thesis by (cases xs) auto
  qed
  with assms(3,7) have r: "c' = fst (media_ready_loop T ?others ?c1)"
    "out = snd (media_ready_loop T ?others ?c1)"
    by (auto simp: startLocalStream_def Let_def split_beta)
  have "u \<in> set ?others"
    using assms(5,6) by simp
  from media_ready_loop_offers [OF assms(1,2) _ this, of ?c1] assms(6) r show ?thesis
    by simp
qed

text \<open>
  Claim C8. \<open>startLocalStream\<close> has two ways to get the stream. The modern path goes on
  to create a peer connection and an offer for every other room member; the fallback path
  for older browsers stores the stream and returns, for every client state. With the
  client in room R and B a member, media that becomes ready on the fallback path leaves
  the client without a peer connection and without an offer to B, where the modern path
  sends B an offer.
\<close>

theorem legacy_media_path_offers_nobody:
  "startLocalStream T (LegacyAPI True) c = (c\<lparr>localStream := True\<rparr>, [], True) \<and>
   isInRoom (client_run browser [JoinClick ''R'', GotRoomState [''B'']] (fresh_client ''A'')) \<and>
   currentRoomUsers (client_run browser [JoinClick ''R'', GotRoomState [''B'']] (fresh_client ''A''))
     = [''B'', ''A''] \<and>
   peer_ids (fst (startLocalStream browser (LegacyAPI True)
      (client_run browser [JoinClick ''R'', GotRoomState [''B'']] (fresh_client ''A'')))) = {} \<and>
   fst (snd (startLocalStream browser (LegacyAPI True)
      (client_run browser [JoinClick ''R'', GotRoomState [''B'']] (fresh_client ''A'')))) = [] \<and>
   fst (snd (startLocalStream browser (ModernAPI True)
      (client_run browser [JoinClick ''R'', GotRoomState [''B'']] (fresh_client ''A''))))
     = [EmitWebrtcSignal (Some ''R'') ''A'' ''B'' (Offer ''offer-sdp'')]"
  by (simp add: client_eval peer_ids_def)

end
